theory Spec2Isabelle
  imports Complex_Main "HOL-Library.Sublist"
begin

section \<open>Python values used by the application\<close>

text \<open>
  A Python \<^verbatim>\<open>str\<close> is a sequence of Unicode code points, so \<^verbatim>\<open>len\<close> counts code
  points.  A code point is a natural number here; \<open>str\<close> turns an Isabelle literal
  into such a sequence.
\<close>

type_synonym pystr = "nat list"

definition str :: "string \<Rightarrow> pystr" where
  "str s = map of_char s"

abbreviation sep :: nat where
  "sep \<equiv> 47"

text \<open>\<^verbatim>\<open>str.isspace\<close> of one code point: the white space that \<^verbatim>\<open>str.strip()\<close> removes.\<close>

definition isspace :: "nat \<Rightarrow> bool" where
  "isspace c =
     ((9 \<le> c \<and> c \<le> 13) \<or> (28 \<le> c \<and> c \<le> 32) \<or> c = 133 \<or> c = 160 \<or> c = 5760
      \<or> (8192 \<le> c \<and> c \<le> 8202) \<or> c = 8232 \<or> c = 8233 \<or> c = 8239 \<or> c = 8287
      \<or> c = 12288)"

definition strip :: "pystr \<Rightarrow> pystr" where
  "strip s = rev (dropWhile isspace (rev (dropWhile isspace s)))"

definition startswith :: "pystr \<Rightarrow> pystr \<Rightarrow> bool" where
  "startswith s p = (take (length p) s = p)"

definition endswith :: "pystr \<Rightarrow> pystr \<Rightarrow> bool" where
  "endswith s p = (length p \<le> length s \<and> drop (length s - length p) s = p)"

text \<open>
  A string has a UTF-8 encoding unless it holds a surrogate code point
  (\<^verbatim>\<open>U+D800\<close> to \<^verbatim>\<open>U+DFFF\<close>); \<^verbatim>\<open>json.loads\<close> lets such a string through.
\<close>

definition utf8_encodable :: "pystr \<Rightarrow> bool" where
  "utf8_encodable s = list_all (\<lambda>c. c < 55296 \<or> 57343 < c) s"

text \<open>\<^verbatim>\<open>s.split(sep)\<close> for a one-character separator, and \<^verbatim>\<open>sep.join(parts)\<close>.\<close>

fun py_split :: "nat \<Rightarrow> pystr \<Rightarrow> pystr list" where
  "py_split d [] = [[]]"
| "py_split d (c # cs) =
     (if c = d then [] # py_split d cs
      else (let r = py_split d cs in (c # hd r) # tl r))"

fun py_join :: "pystr \<Rightarrow> pystr list \<Rightarrow> pystr" where
  "py_join d [] = []"
| "py_join d [x] = x"
| "py_join d (x # y # ys) = x @ d @ py_join d (y # ys)"

text \<open>
  The exceptions that travel through the application.  \<open>SqliteError\<close> stands for
  \<^verbatim>\<open>sqlite3.Error\<close>, \<open>AttributeError\<close> for a method looked up on a value that does not
  have it, \<open>UnicodeEncodeError\<close> for a string that has no UTF-8 encoding, \<open>OtherError\<close>
  for any other \<^verbatim>\<open>Exception\<close> raised by a library call.
\<close>

datatype exn =
    DatabaseError string
  | QRCodeError string
  | SqliteError
  | AttributeError
  | UnicodeEncodeError
  | OtherError

text \<open>What \<^verbatim>\<open>request.get_json()\<close> hands to a handler: the values of \<^verbatim>\<open>json.loads\<close>.\<close>

datatype json =
    JNull
  | JBool bool
  | JInt int
  | JFloat rat
  | JStr pystr
  | JArr "json list"
  | JObj "(pystr \<times> json) list"

text \<open>Python truth value of a parsed JSON value (\<^verbatim>\<open>if not data\<close>, \<^verbatim>\<open>user_id and ...\<close>).\<close>

fun truthy :: "json \<Rightarrow> bool" where
  "truthy JNull = False"
| "truthy (JBool b) = b"
| "truthy (JInt i) = (i \<noteq> 0)"
| "truthy (JFloat r) = (r \<noteq> 0)"
| "truthy (JStr s) = (s \<noteq> [])"
| "truthy (JArr xs) = (xs \<noteq> [])"
| "truthy (JObj kvs) = (kvs \<noteq> [])"

text \<open>\<^verbatim>\<open>data.get(key)\<close>: only a dict has the method; a missing key gives \<^verbatim>\<open>None\<close>.\<close>

fun dict_get :: "json \<Rightarrow> pystr \<Rightarrow> exn + json" where
  "dict_get (JObj kvs) k = Inr (case map_of kvs k of None \<Rightarrow> JNull | Some v \<Rightarrow> v)"
| "dict_get v k = Inl AttributeError"

section \<open>Path helpers called by the QR code service\<close>

text \<open>
  \<^verbatim>\<open>generate_qr_code\<close> calls \<^verbatim>\<open>werkzeug.security.safe_join\<close>, which calls
  \<^verbatim>\<open>posixpath.normpath\<close> and \<^verbatim>\<open>posixpath.join\<close>.  They are modelled as their library
  sources run on a POSIX host (separator \<^verbatim>\<open>/\<close>, no alternative separator).
\<close>

definition posixpath_isabs :: "pystr \<Rightarrow> bool" where
  "posixpath_isabs s = startswith s (str ''/'')"

definition posixpath_join :: "pystr \<Rightarrow> pystr \<Rightarrow> pystr" where
  "posixpath_join a b =
     (if startswith b (str ''/'') then b
      else if a = [] \<or> endswith a (str ''/'') then a @ b
      else a @ str ''/'' @ b)"

text \<open>One round of the loop of \<^verbatim>\<open>normpath\<close> over the components.\<close>

definition normpath_step :: "nat \<Rightarrow> pystr list \<Rightarrow> pystr \<Rightarrow> pystr list" where
  "normpath_step initial_slashes new_comps cmp =
     (if cmp = [] \<or> cmp = str ''.'' then new_comps
      else if cmp \<noteq> str ''..'' \<or> (initial_slashes = 0 \<and> new_comps = [])
              \<or> (new_comps \<noteq> [] \<and> last new_comps = str ''..'')
      then new_comps @ [cmp]
      else if new_comps \<noteq> [] then butlast new_comps
      else new_comps)"

definition posixpath_normpath :: "pystr \<Rightarrow> pystr" where
  "posixpath_normpath path =
     (if path = [] then str ''.''
      else
        let initial_slashes =
              (if startswith path (str ''/'')
               then (if startswith path (str ''//'') \<and> \<not> startswith path (str ''///'')
                     then 2 else 1)
               else (0::nat));
            comps = foldl (normpath_step initial_slashes) [] (py_split sep path);
            joined = py_join (str ''/'') comps;
            result = (if initial_slashes \<noteq> 0
                      then replicate initial_slashes sep @ joined else joined)
        in if result = [] then str ''.'' else result)"

definition safe_join :: "pystr \<Rightarrow> pystr \<Rightarrow> pystr option" where
  "safe_join directory pathname =
     (let filename = (if pathname \<noteq> [] then posixpath_normpath pathname else pathname)
      in if posixpath_isabs filename \<or> filename = str ''..''
            \<or> startswith filename (str ''../'')
         then None
         else Some (posixpath_join directory filename))"

section \<open>QRCodeService\<close>

text \<open>
  The directory of artifacts is a finite map from path to image.  The environment of
  one call says what the library calls do: \<open>make_image\<close> is the \<^verbatim>\<open>qrcode\<close> pipeline
  (\<^verbatim>\<open>QRCode\<close>, \<^verbatim>\<open>add_data\<close>, \<^verbatim>\<open>make\<close>, \<^verbatim>\<open>make_image\<close>), \<open>None\<close> when it raises;
  \<open>save\<close> is \<^verbatim>\<open>qr_image.save(path)\<close>, which either writes the file or raises and
  leaves at that path whatever the interrupted write left.  The remaining fields are
  the faults and the clock of the database (next section).  Calls to the logger are
  not part of the model.
\<close>

type_synonym 'img files = "pystr \<rightharpoonup> 'img"

datatype 'img save_outcome = Written | Failed "'img option"

record 'img env =
  make_image :: "pystr \<Rightarrow> 'img option"
  save :: "pystr \<Rightarrow> 'img save_outcome"
  connect_error :: bool
  execute_error :: "nat \<Rightarrow> bool"
  commit_error :: bool
  current_timestamp :: nat

text \<open>The body of the \<^verbatim>\<open>try\<close> block of \<^verbatim>\<open>generate_qr_code\<close>.\<close>

definition generate_qr_code_try ::
  "'img env \<Rightarrow> pystr \<Rightarrow> pystr \<Rightarrow> 'img files \<Rightarrow> 'img files \<times> (exn + pystr)" where
  "generate_qr_code_try e qr_codes_dir user_id fs =
     (case make_image e user_id of
        None \<Rightarrow> (fs, Inl OtherError)
      | Some qr_image \<Rightarrow>
          (case safe_join qr_codes_dir (user_id @ str ''.png'') of
             None \<Rightarrow> (fs, Inl (QRCodeError ''Invalid QR code path''))
           | Some qr_path \<Rightarrow>
               if qr_path \<noteq> [] then
                 (case save e qr_path of
                    Written \<Rightarrow> (fs(qr_path \<mapsto> qr_image), Inr qr_path)
                  | Failed left \<Rightarrow> (fs(qr_path := left), Inl OtherError))
               else (fs, Inl (QRCodeError ''Invalid QR code path''))))"

text \<open>The \<^verbatim>\<open>except Exception\<close> clause around it.\<close>

definition generate_qr_code ::
  "'img env \<Rightarrow> pystr \<Rightarrow> pystr \<Rightarrow> 'img files \<Rightarrow> 'img files \<times> (exn + pystr)" where
  "generate_qr_code e qr_codes_dir user_id fs =
     (case generate_qr_code_try e qr_codes_dir user_id fs of
        (fs', Inl err) \<Rightarrow> (fs', Inl (QRCodeError ''Failed to generate QR code''))
      | (fs', Inr qr_path) \<Rightarrow> (fs', Inr qr_path))"

text \<open>
  Lexical containment, the property asked of the destination path.  \<open>climbs depth cs\<close>
  walks the components of a relative name starting \<open>depth\<close> levels below the
  directory and tells whether some \<^verbatim>\<open>..\<close> steps above the directory; \<open>escapes\<close> is
  that, or an absolute name.  A path is \<open>confined\<close> to a directory when it is the
  directory followed by a name that never steps above it.  A \<open>plain_name\<close> is a
  component that names an entry: not empty, not \<^verbatim>\<open>.\<close>, not \<^verbatim>\<open>..\<close>, without separator.
\<close>

fun climbs :: "nat \<Rightarrow> pystr list \<Rightarrow> bool" where
  "climbs depth [] = False"
| "climbs depth (c # cs) =
     (if c = [] \<or> c = str ''.'' then climbs depth cs
      else if c = str ''..'' then (case depth of 0 \<Rightarrow> True | Suc d \<Rightarrow> climbs d cs)
      else climbs (Suc depth) cs)"

definition plain_name :: "pystr \<Rightarrow> bool" where
  "plain_name c = (c \<noteq> [] \<and> c \<noteq> str ''.'' \<and> c \<noteq> str ''..'' \<and> sep \<notin> set c)"

definition escapes :: "pystr \<Rightarrow> bool" where
  "escapes name = (startswith name (str ''/'') \<or> climbs 0 (py_split sep name))"

definition dir_prefix :: "pystr \<Rightarrow> pystr" where
  "dir_prefix d = (if d = [] \<or> endswith d (str ''/'') then d else d @ str ''/'')"

definition confined :: "pystr \<Rightarrow> pystr \<Rightarrow> bool" where
  "confined d p =
     (startswith p (dir_prefix d)
      \<and> \<not> climbs 0 (py_split sep (drop (length (dir_prefix d)) p)))"

section \<open>Database\<close>

text \<open>
  One row of the table \<^verbatim>\<open>attendance\<close>.  \<^verbatim>\<open>CURRENT_TIMESTAMP\<close> is a text of fixed
  format whose order is the order of time; it is modelled by the clock reading.
\<close>

record row =
  row_id :: int
  row_user_id :: pystr
  row_timestamp :: nat
  row_created_at :: nat

text \<open>
  The database file: the table (\<open>None\<close> before \<^verbatim>\<open>CREATE TABLE\<close>), its index, the
  \<^verbatim>\<open>AUTOINCREMENT\<close> counter, and the number of connection handles that were opened
  and not closed.
\<close>

record database =
  attendance :: "row list option"
  idx_user_id_timestamp :: bool
  sqlite_sequence :: int
  connections :: nat

definition table :: "database \<Rightarrow> row list" where
  "table d = (case attendance d of None \<Rightarrow> [] | Some rows \<Rightarrow> rows)"

text \<open>\<^verbatim>\<open>Database.get_connection\<close>: \<^verbatim>\<open>sqlite3.connect\<close>, its error turned into \<open>DatabaseError\<close>.\<close>

definition get_connection :: "'img env \<Rightarrow> database \<Rightarrow> database \<times> (exn + unit)" where
  "get_connection e d =
     (if connect_error e then (d, Inl (DatabaseError ''Failed to connect to database''))
      else (d\<lparr>connections := Suc (connections d)\<rparr>, Inr ()))"

text \<open>
  \<^verbatim>\<open>Database.init_db\<close>.  Both statements are \<^verbatim>\<open>IF NOT EXISTS\<close>; data definition
  statements run outside a transaction, so what ran before a failure stays.
\<close>

definition init_db :: "'img env \<Rightarrow> database \<Rightarrow> database \<times> (exn + unit)" where
  "init_db e d =
     (case get_connection e d of
        (d1, Inl err) \<Rightarrow> (d1, Inl err)
      | (d1, Inr conn) \<Rightarrow>
          if execute_error e 0 then (d1, Inl (DatabaseError ''Failed to initialize database''))
          else
            let d2 = d1\<lparr>attendance := Some (table d1)\<rparr> in
            if execute_error e 1 then (d2, Inl (DatabaseError ''Failed to initialize database''))
            else
              let d3 = d2\<lparr>idx_user_id_timestamp := True\<rparr> in
              if commit_error e then (d3, Inl (DatabaseError ''Failed to initialize database''))
              else (d3, Inr ()))"

text \<open>
  \<^verbatim>\<open>INSERT INTO attendance (user_id) VALUES (?)\<close>: the row gets the next
  \<^verbatim>\<open>AUTOINCREMENT\<close> id, one more than the largest id ever used, and the clock reading
  in both time columns.  Preparing the statement fails with an \<^verbatim>\<open>sqlite3.Error\<close> when
  the table is missing.  Binding the parameter then raises \<open>UnicodeEncodeError\<close>, which
  is not an \<^verbatim>\<open>sqlite3.Error\<close>, when the \<open>user_id\<close> has no UTF-8 encoding.  Running the
  statement fails with an \<^verbatim>\<open>sqlite3.Error\<close> when the environment says so or when the
  largest 64-bit id is used up.
\<close>

definition insert_attendance :: "'img env \<Rightarrow> pystr \<Rightarrow> database \<Rightarrow> exn + database" where
  "insert_attendance e user_id d =
     (case attendance d of
        None \<Rightarrow> Inl SqliteError
      | Some rows \<Rightarrow>
          if \<not> utf8_encodable user_id then Inl UnicodeEncodeError
          else if execute_error e 0 then Inl SqliteError
          else
            let largest = foldr max (map row_id rows) (sqlite_sequence d) in
            if 9223372036854775807 \<le> largest then Inl SqliteError
            else Inr (d\<lparr>attendance := Some (rows @
                        [\<lparr>row_id = largest + 1, row_user_id = user_id,
                          row_timestamp = current_timestamp e,
                          row_created_at = current_timestamp e\<rparr>]),
                      sqlite_sequence := largest + 1\<rparr>))"

text \<open>
  \<^verbatim>\<open>SELECT * FROM attendance ORDER BY timestamp DESC\<close>.  SQL leaves the order of rows
  of equal timestamp open; here they keep their order of insertion.
\<close>

definition order_by_timestamp_desc :: "row list \<Rightarrow> row list" where
  "order_by_timestamp_desc rows = rev (sort_key row_timestamp (rev rows))"

definition select_attendance :: "'img env \<Rightarrow> database \<Rightarrow> exn + row list" where
  "select_attendance e d =
     (case attendance d of
        None \<Rightarrow> Inl SqliteError
      | Some rows \<Rightarrow>
          if execute_error e 0 then Inl SqliteError
          else Inr (order_by_timestamp_desc rows))"

section \<open>AttendanceService\<close>

text \<open>
  The \<^verbatim>\<open>with\<close> block over a connection commits when its body ends and rolls back when
  the body raises; it does not close the connection, and the code has no call of
  \<^verbatim>\<open>close\<close>.  The clause \<^verbatim>\<open>except sqlite3.Error\<close> turns an \<^verbatim>\<open>sqlite3.Error\<close> into a
  \<open>DatabaseError\<close>; the \<open>DatabaseError\<close> of \<open>get_connection\<close> and the
  \<open>UnicodeEncodeError\<close> of the \<^verbatim>\<open>INSERT\<close> are no \<^verbatim>\<open>sqlite3.Error\<close> and pass it unchanged.
\<close>

definition mark_attendance_try ::
  "'img env \<Rightarrow> pystr \<Rightarrow> database \<Rightarrow> database \<times> (exn + unit)" where
  "mark_attendance_try e user_id d =
     (case get_connection e d of
        (d1, Inl err) \<Rightarrow> (d1, Inl err)
      | (d1, Inr conn) \<Rightarrow>
          (case insert_attendance e user_id d1 of
             Inl err \<Rightarrow> (d1, Inl err)
           | Inr d2 \<Rightarrow> if commit_error e then (d1, Inl SqliteError) else (d2, Inr ())))"

definition AttendanceService_mark_attendance ::
  "'img env \<Rightarrow> pystr \<Rightarrow> database \<Rightarrow> database \<times> (exn + unit)" where
  "AttendanceService_mark_attendance e user_id d =
     (case mark_attendance_try e user_id d of
        (d', Inl SqliteError) \<Rightarrow> (d', Inl (DatabaseError ''Failed to mark attendance''))
      | (d', r) \<Rightarrow> (d', r))"

definition get_attendance_records_try ::
  "'img env \<Rightarrow> database \<Rightarrow> database \<times> (exn + row list)" where
  "get_attendance_records_try e d =
     (case get_connection e d of
        (d1, Inl err) \<Rightarrow> (d1, Inl err)
      | (d1, Inr conn) \<Rightarrow>
          (case select_attendance e d1 of
             Inl err \<Rightarrow> (d1, Inl err)
           | Inr rows \<Rightarrow> if commit_error e then (d1, Inl SqliteError) else (d1, Inr rows)))"

definition get_attendance_records ::
  "'img env \<Rightarrow> database \<Rightarrow> database \<times> (exn + row list)" where
  "get_attendance_records e d =
     (case get_attendance_records_try e d of
        (d', Inl SqliteError) \<Rightarrow>
          (d', Inl (DatabaseError ''Failed to retrieve attendance records''))
      | (d', r) \<Rightarrow> (d', r))"

text \<open>Successive calls of \<^verbatim>\<open>mark_attendance\<close> for one user, all of which succeed.\<close>

fun mark_repeatedly :: "'img env list \<Rightarrow> pystr \<Rightarrow> database \<Rightarrow> database option" where
  "mark_repeatedly [] user_id d = Some d"
| "mark_repeatedly (e # es) user_id d =
     (case AttendanceService_mark_attendance e user_id d of
        (d', Inr u) \<Rightarrow> mark_repeatedly es user_id d'
      | (d', Inl err) \<Rightarrow> None)"

section \<open>Request handlers\<close>

text \<open>
  The state the handlers work on, and a response (status and JSON body).  A handler
  is given what \<^verbatim>\<open>request.get_json()\<close> did: it raised, or it returned a value.
\<close>

record 'img world =
  db :: database
  files :: "'img files"

record response =
  status :: nat
  body :: json

datatype get_json = Raises | Returns json

definition error_body :: "string \<Rightarrow> json" where
  "error_body msg = JObj [(str ''error'', JStr (str msg))]"

text \<open>
  \<^verbatim>\<open>bool(user_id and user_id.strip() and len(user_id) <= 50)\<close> on whatever the request
  carried: a false value stops the \<^verbatim>\<open>and\<close> chain, and only a string has \<^verbatim>\<open>strip\<close>.
\<close>

definition validate_user_id :: "json \<Rightarrow> exn + bool" where
  "validate_user_id v =
     (if \<not> truthy v then Inr False
      else (case v of
              JStr s \<Rightarrow> Inr (if strip s = [] then False else length s \<le> 50)
            | _ \<Rightarrow> Inl AttributeError))"

definition generate_qr_try ::
  "'img env \<Rightarrow> pystr \<Rightarrow> get_json \<Rightarrow> 'img world \<Rightarrow> 'img world \<times> (exn + response)" where
  "generate_qr_try e qr_codes_dir req w =
     (case req of
        Raises \<Rightarrow> (w, Inl OtherError)
      | Returns data \<Rightarrow>
          if \<not> truthy data then (w, Inr \<lparr>status = 400, body = error_body ''No data provided''\<rparr>)
          else
            (case dict_get data (str ''user_id'') of
               Inl err \<Rightarrow> (w, Inl err)
             | Inr user_id \<Rightarrow>
                 (case validate_user_id user_id of
                    Inl err \<Rightarrow> (w, Inl err)
                  | Inr False \<Rightarrow>
                      (w, Inr \<lparr>status = 400, body = error_body ''Invalid user ID''\<rparr>)
                  | Inr True \<Rightarrow>
                      (case user_id of
                         JStr s \<Rightarrow>
                           (case generate_qr_code e qr_codes_dir s (files w) of
                              (fs, Inl err) \<Rightarrow> (w\<lparr>files := fs\<rparr>, Inl err)
                            | (fs, Inr qr_path) \<Rightarrow>
                                (w\<lparr>files := fs\<rparr>,
                                 Inr \<lparr>status = 200,
                                      body = JObj
                                        [(str ''message'',
                                          JStr (str ''QR Code generated successfully'')),
                                         (str ''qr_path'', JStr qr_path)]\<rparr>))
                       | _ \<Rightarrow> (w, Inl AttributeError)))))"

definition generate_qr ::
  "'img env \<Rightarrow> pystr \<Rightarrow> get_json \<Rightarrow> 'img world \<Rightarrow> 'img world \<times> response" where
  "generate_qr e qr_codes_dir req w =
     (case generate_qr_try e qr_codes_dir req w of
        (w', Inr resp) \<Rightarrow> (w', resp)
      | (w', Inl (QRCodeError msg)) \<Rightarrow> (w', \<lparr>status = 500, body = error_body msg\<rparr>)
      | (w', Inl err) \<Rightarrow> (w', \<lparr>status = 500, body = error_body ''Internal server error''\<rparr>))"

definition mark_attendance_handler_try ::
  "'img env \<Rightarrow> get_json \<Rightarrow> 'img world \<Rightarrow> 'img world \<times> (exn + response)" where
  "mark_attendance_handler_try e req w =
     (case req of
        Raises \<Rightarrow> (w, Inl OtherError)
      | Returns data \<Rightarrow>
          if \<not> truthy data then (w, Inr \<lparr>status = 400, body = error_body ''No data provided''\<rparr>)
          else
            (case dict_get data (str ''user_id'') of
               Inl err \<Rightarrow> (w, Inl err)
             | Inr user_id \<Rightarrow>
                 (case validate_user_id user_id of
                    Inl err \<Rightarrow> (w, Inl err)
                  | Inr False \<Rightarrow>
                      (w, Inr \<lparr>status = 400, body = error_body ''Invalid user ID''\<rparr>)
                  | Inr True \<Rightarrow>
                      (case user_id of
                         JStr s \<Rightarrow>
                           (case AttendanceService_mark_attendance e s (db w) of
                              (d, Inl err) \<Rightarrow> (w\<lparr>db := d\<rparr>, Inl err)
                            | (d, Inr u) \<Rightarrow>
                                (w\<lparr>db := d\<rparr>,
                                 Inr \<lparr>status = 200,
                                      body = JObj
                                        [(str ''message'',
                                          JStr (str ''Attendance marked successfully''))]\<rparr>))
                       | _ \<Rightarrow> (w, Inl AttributeError)))))"

definition mark_attendance ::
  "'img env \<Rightarrow> get_json \<Rightarrow> 'img world \<Rightarrow> 'img world \<times> response" where
  "mark_attendance e req w =
     (case mark_attendance_handler_try e req w of
        (w', Inr resp) \<Rightarrow> (w', resp)
      | (w', Inl (DatabaseError msg)) \<Rightarrow> (w', \<lparr>status = 500, body = error_body msg\<rparr>)
      | (w', Inl err) \<Rightarrow> (w', \<lparr>status = 500, body = error_body ''Internal server error''\<rparr>))"

text \<open>The operations of the system on the stored state, for statements about all of them.\<close>

datatype operation = Mark pystr | ListAll | Generate pystr | InitDb

definition run :: "'img env \<Rightarrow> pystr \<Rightarrow> operation \<Rightarrow> 'img world \<Rightarrow> 'img world" where
  "run e qr_codes_dir op w =
     (case op of
        Mark user_id \<Rightarrow> w\<lparr>db := fst (AttendanceService_mark_attendance e user_id (db w))\<rparr>
      | ListAll \<Rightarrow> w\<lparr>db := fst (get_attendance_records e (db w))\<rparr>
      | Generate user_id \<Rightarrow> w\<lparr>files := fst (generate_qr_code e qr_codes_dir user_id (files w))\<rparr>
      | InitDb \<Rightarrow> w\<lparr>db := fst (init_db e (db w))\<rparr>)"

text \<open>A concrete environment in which every library call succeeds, and an empty store.\<close>

definition env0 :: "pystr env" where
  "env0 = \<lparr>make_image = (\<lambda>s. Some s), save = (\<lambda>p. Written), connect_error = False,
           execute_error = (\<lambda>n. False), commit_error = False, current_timestamp = 1000\<rparr>"

definition db0 :: database where
  "db0 = \<lparr>attendance = Some [], idx_user_id_timestamp = True, sqlite_sequence = 0,
          connections = 0\<rparr>"

definition world0 :: "pystr world" where
  "world0 = \<lparr>db = db0, files = Map.empty\<rparr>"

text \<open>A later call, and a store that already holds one row.\<close>

definition env1 :: "pystr env" where
  "env1 = env0\<lparr>current_timestamp := 2000\<rparr>"

definition db1 :: database where
  "db1 = \<lparr>attendance = Some [\<lparr>row_id = 1, row_user_id = str ''bob'', row_timestamp = 500,
                              row_created_at = 500\<rparr>],
          idx_user_id_timestamp = True, sqlite_sequence = 1, connections = 0\<rparr>"

section \<open>Splitting and joining\<close>

lemma str_simps:
  "str [] = []"
  "str (c # cs) = of_char c # str cs"
  by (simp_all add: str_def)

lemmas path_eval = safe_join_def posixpath_normpath_def normpath_step_def posixpath_join_def
  posixpath_isabs_def startswith_def endswith_def str_def

lemma py_split_nonempty: "py_split d s \<noteq> []"
  by (induction s) (simp_all add: Let_def)

lemma py_split_no_sep: "c \<in> set (py_split d s) \<Longrightarrow> d \<notin> set c"
proof (induction s arbitrary: c)
  case Nil
  then show ?case by simp
next
  case (Cons a s)
  show ?case
  proof (cases "a = d")
    case True
    with Cons show ?thesis by auto
  next
    case False
    obtain w ws where r: "py_split d s = w # ws"
      using py_split_nonempty [of d s] by (cases "py_split d s") auto
    with Cons False show ?thesis by (auto simp: Let_def)
  qed
qed

lemma py_split_single: "d \<notin> set s \<Longrightarrow> py_split d s = [s]"
  by (induction s) (simp_all add: Let_def)

lemma py_split_append_sep:
  "d \<notin> set x \<Longrightarrow> py_split d (x @ d # s) = x # py_split d s"
  by (induction x) (simp_all add: Let_def)

lemma py_split_py_join:
  "cs \<noteq> [] \<Longrightarrow> \<forall>c\<in>set cs. d \<notin> set c \<Longrightarrow> py_split d (py_join [d] cs) = cs"
proof (induction cs)
  case Nil
  then show ?case by simp
next
  case (Cons x cs)
  show ?case
  proof (cases cs)
    case Nil
    with Cons.prems show ?thesis by (simp add: py_split_single)
  next
    case (Cons y ys)
    with Cons.IH Cons.prems show ?thesis by (simp add: py_split_append_sep)
  qed
qed

lemma startswithD: "startswith s p \<Longrightarrow> \<exists>t. s = p @ t"
  unfolding startswith_def by (metis append_take_drop_id)

lemma startswith_append [simp]: "startswith (p @ t) p"
  by (simp add: startswith_def)

section \<open>What \<open>normpath\<close> returns\<close>

text \<open>
  On a relative name the loop keeps a stack of the form \<^verbatim>\<open>..\<close>, ..., \<^verbatim>\<open>..\<close> followed by
  plain names; a \<^verbatim>\<open>..\<close> is at its bottom exactly when the walk stepped above the
  starting directory.
\<close>

lemma normpath_step_shape:
  assumes "\<forall>n\<in>set names. plain_name n"
  shows "normpath_step 0 (replicate k (str ''..'') @ names) c =
     (if c = [] \<or> c = str ''.'' then replicate k (str ''..'') @ names
      else if c = str ''..''
           then (if names = [] then replicate (Suc k) (str ''..'')
                 else replicate k (str ''..'') @ butlast names)
      else replicate k (str ''..'') @ names @ [c])"
proof (cases "names = []")
  case True
  then show ?thesis
    by (cases k) (auto simp: normpath_step_def replicate_append_same)
next
  case False
  with assms have "last names \<noteq> str ''..''"
    using last_in_set [of names] by (auto simp: plain_name_def)
  with False show ?thesis
    by (auto simp: normpath_step_def butlast_append)
qed

lemma normpath_fold:
  assumes "\<forall>c\<in>set cs. sep \<notin> set c" and "\<forall>n\<in>set names. plain_name n"
  shows "\<exists>k' names'.
           foldl (normpath_step 0) (replicate k (str ''..'') @ names) cs
             = replicate k' (str ''..'') @ names'
           \<and> (\<forall>n\<in>set names'. plain_name n)
           \<and> (0 < k' \<longleftrightarrow> 0 < k \<or> climbs (length names) cs)"
  using assms
proof (induction cs arbitrary: k names)
  case Nil
  then show ?case by auto
next
  case (Cons c cs)
  have seps: "\<forall>c\<in>set cs. sep \<notin> set c" and c: "sep \<notin> set c"
    using Cons.prems(1) by auto
  note shape = normpath_step_shape [OF Cons.prems(2), of k c]
  consider (skip) "c = [] \<or> c = str ''.''"
    | (up_empty) "c = str ''..''" "names = []"
    | (up_pop) "c = str ''..''" "names \<noteq> []"
    | (name) "c \<noteq> []" "c \<noteq> str ''.''" "c \<noteq> str ''..''"
    by (auto simp: str_def)
  then show ?case
  proof cases
    case skip
    with shape Cons.IH [OF seps Cons.prems(2), of k] show ?thesis by auto
  next
    case up_empty
    have "\<forall>n\<in>set ([]::pystr list). plain_name n" by simp
    from Cons.IH [OF seps this, of "Suc k"] up_empty shape show ?thesis
      by (auto simp: str_def)
  next
    case up_pop
    then have pl: "\<forall>n\<in>set (butlast names). plain_name n"
      using Cons.prems(2) by (auto dest: in_set_butlastD)
    from up_pop obtain d where d: "length names = Suc d" "length (butlast names) = d"
      by (cases names) auto
    from Cons.IH [OF seps pl, of k] up_pop shape d show ?thesis
      by (auto simp: str_def)
  next
    case name
    with c have pl: "\<forall>n\<in>set (names @ [c]). plain_name n"
      using Cons.prems(2) by (auto simp: plain_name_def)
    from Cons.IH [OF seps pl, of k] name shape show ?thesis
      by (auto simp: str_def)
  qed
qed

lemma climbs_plain: "\<forall>n\<in>set ns. plain_name n \<Longrightarrow> \<not> climbs depth ns"
  by (induction ns arbitrary: depth) (auto simp: plain_name_def)

lemma posixpath_join_relative:
  "\<not> startswith b (str ''/'') \<Longrightarrow> posixpath_join a b = dir_prefix a @ b"
  by (simp add: posixpath_join_def dir_prefix_def)

lemma confined_dir_prefix:
  "confined d (dir_prefix d @ t) = (\<not> climbs 0 (py_split sep t))"
  by (simp add: confined_def)

lemma normpath_absolute:
  assumes "startswith f (str ''/'')"
  shows "startswith (posixpath_normpath f) (str ''/'')"
proof -
  from assms have "f \<noteq> []" by (auto simp: startswith_def str_def)
  with assms show ?thesis
    by (simp add: posixpath_normpath_def Let_def startswith_def str_def
        numeral_2_eq_2)
qed

lemma normpath_relative:
  assumes "f \<noteq> []" and "\<not> startswith f (str ''/'')"
  shows "\<exists>k names.
           posixpath_normpath f =
             (if py_join (str ''/'') (replicate k (str ''..'') @ names) = [] then str ''.''
              else py_join (str ''/'') (replicate k (str ''..'') @ names))
           \<and> (\<forall>n\<in>set names. plain_name n)
           \<and> (0 < k \<longleftrightarrow> climbs 0 (py_split sep f))"
proof -
  have "\<forall>c\<in>set (py_split sep f). sep \<notin> set c"
    using py_split_no_sep by blast
  moreover have "\<forall>n\<in>set ([]::pystr list). plain_name n" by simp
  ultimately obtain k names where
    "foldl (normpath_step 0) (replicate 0 (str ''..'') @ []) (py_split sep f)
       = replicate k (str ''..'') @ names"
    "\<forall>n\<in>set names. plain_name n"
    "0 < k \<longleftrightarrow> 0 < (0::nat) \<or> climbs (length ([]::pystr list)) (py_split sep f)"
    using normpath_fold [of "py_split sep f" "[]" 0] by blast
  with assms show ?thesis
    by (auto simp: posixpath_normpath_def Let_def intro!: exI [of _ k] exI [of _ names])
qed

lemma joined_dotdot_first:
  "py_join (str ''/'') (replicate (Suc k) (str ''..'') @ names) = str ''..''
   \<or> startswith (py_join (str ''/'') (replicate (Suc k) (str ''..'') @ names)) (str ''../'')"
proof (cases "replicate k (str ''..'') @ names")
  case Nil
  then show ?thesis by simp
next
  case (Cons y ys)
  then show ?thesis by (simp add: startswith_def str_def)
qed

lemma joined_plain_accepted:
  assumes "\<forall>n\<in>set names. plain_name n" and "names \<noteq> []"
  shows "py_join (str ''/'') names \<noteq> []"
    and "\<not> startswith (py_join (str ''/'') names) (str ''/'')"
    and "py_join (str ''/'') names \<noteq> str ''..''"
    and "\<not> startswith (py_join (str ''/'') names) (str ''../'')"
proof -
  let ?r = "py_join (str ''/'') names"
  have sl: "str ''/'' = [sep]" by (simp add: str_def)
  from assms have split: "py_split sep ?r = names"
    by (simp add: sl py_split_py_join plain_name_def)
  from assms obtain n ns where names: "names = n # ns" by (cases names) auto
  with assms have n: "n \<noteq> []" "n \<noteq> str ''..''" by (auto simp: plain_name_def)
  show "?r \<noteq> []"
    using split names n by auto
  show "\<not> startswith ?r (str ''/'')"
  proof
    assume "startswith ?r (str ''/'')"
    then obtain t where "?r = sep # t" by (auto dest!: startswithD simp: str_def)
    then have "py_split sep ?r = [] # py_split sep t" by simp
    with split names n show False by simp
  qed
  show "?r \<noteq> str ''..''"
  proof
    assume "?r = str ''..''"
    then have "py_split sep ?r = [str ''..'']" by (simp add: str_def)
    with split names n show False by simp
  qed
  show "\<not> startswith ?r (str ''../'')"
  proof
    assume "startswith ?r (str ''../'')"
    then obtain t where "?r = str ''..'' @ sep # t"
      by (auto dest!: startswithD simp: str_def)
    then have "py_split sep ?r = str ''..'' # py_split sep t"
      by (simp add: py_split_append_sep str_def)
    with split names n show False by simp
  qed
qed

lemma normpath_relative_cases:
  assumes "f \<noteq> []" and "\<not> startswith f (str ''/'')"
  obtains (inside) names where "\<not> climbs 0 (py_split sep f)"
      "\<forall>n\<in>set names. plain_name n"
      "posixpath_normpath f = (if names = [] then str ''.'' else py_join (str ''/'') names)"
    | (outside) "climbs 0 (py_split sep f)"
      "posixpath_normpath f = str ''..'' \<or> startswith (posixpath_normpath f) (str ''../'')"
proof -
  from normpath_relative [OF assms] obtain k names where
    norm: "posixpath_normpath f =
             (if py_join (str ''/'') (replicate k (str ''..'') @ names) = [] then str ''.''
              else py_join (str ''/'') (replicate k (str ''..'') @ names))"
    and plain: "\<forall>n\<in>set names. plain_name n"
    and k: "0 < k \<longleftrightarrow> climbs 0 (py_split sep f)"
    by blast
  show thesis
  proof (cases k)
    case 0
    with k have nc: "\<not> climbs 0 (py_split sep f)" by simp
    have "posixpath_normpath f = (if names = [] then str ''.'' else py_join (str ''/'') names)"
    proof (cases "names = []")
      case True
      with 0 norm show ?thesis by simp
    next
      case False
      from joined_plain_accepted(1) [OF plain False] 0 norm False show ?thesis by simp
    qed
    with nc plain show thesis by (rule inside)
  next
    case (Suc k')
    with k have c: "climbs 0 (py_split sep f)" by simp
    let ?r = "py_join (str ''/'') (replicate (Suc k') (str ''..'') @ names)"
    have d: "?r = str ''..'' \<or> startswith ?r (str ''../'')"
      by (rule joined_dotdot_first)
    then have "?r \<noteq> []"
    proof
      assume "?r = str ''..''"
      then show ?thesis by (simp add: str_def)
    next
      assume "startswith ?r (str ''../'')"
      then obtain t where "?r = str ''../'' @ t" by (blast dest: startswithD)
      then show ?thesis by (simp add: str_def)
    qed
    with norm Suc have "posixpath_normpath f = ?r" by simp
    with d have "posixpath_normpath f = str ''..'' \<or> startswith (posixpath_normpath f) (str ''../'')"
      by simp
    with c show thesis by (rule outside)
  qed
qed


lemma safe_join_nonempty:
  "f \<noteq> [] \<Longrightarrow> safe_join d f =
     (if startswith (posixpath_normpath f) (str ''/'') \<or> posixpath_normpath f = str ''..''
         \<or> startswith (posixpath_normpath f) (str ''../'')
      then None else Some (posixpath_join d (posixpath_normpath f)))"
  by (simp add: safe_join_def posixpath_isabs_def)

lemma normpath_inside_accepted:
  assumes "\<forall>n\<in>set names. plain_name n"
    and "r = (if names = [] then str ''.'' else py_join (str ''/'') names)"
  shows "\<not> startswith r (str ''/'')" and "r \<noteq> str ''..''"
    and "\<not> startswith r (str ''../'')" and "\<not> climbs 0 (py_split sep r)"
proof -
  have "\<not> startswith r (str ''/'') \<and> r \<noteq> str ''..'' \<and> \<not> startswith r (str ''../'')
        \<and> \<not> climbs 0 (py_split sep r)"
  proof (cases "names = []")
    case True
    with assms(2) have "r = [46]" by (simp add: str_def)
    then show ?thesis by (simp add: startswith_def str_def)
  next
    case False
    with assms(2) have r: "r = py_join (str ''/'') names" by simp
    from assms(1) False have "py_split sep (py_join [sep] names) = names"
      by (simp add: py_split_py_join plain_name_def)
    then have "py_split sep r = names" by (simp add: r str_def)
    with climbs_plain [OF assms(1), of 0] joined_plain_accepted [OF assms(1) False] r
    show ?thesis by simp
  qed
  then show "\<not> startswith r (str ''/'')" and "r \<noteq> str ''..''"
    and "\<not> startswith r (str ''../'')" and "\<not> climbs 0 (py_split sep r)"
    by simp_all
qed

lemma safe_join_rejects_iff:
  assumes "f \<noteq> []"
  shows "safe_join d f = None \<longleftrightarrow> escapes f"
proof (cases "startswith f (str ''/'')")
  case True
  with normpath_absolute [OF True] assms show ?thesis
    by (simp add: safe_join_nonempty escapes_def)
next
  case False
  from assms False show ?thesis
  proof (cases rule: normpath_relative_cases)
    case (inside names)
    from normpath_inside_accepted [OF inside(2,3)] inside(1) False assms
    show ?thesis by (simp add: safe_join_nonempty escapes_def)
  next
    case outside
    with assms show ?thesis
      by (simp add: safe_join_nonempty escapes_def)
  qed
qed

lemma safe_join_confined:
  assumes "safe_join d f = Some p"
  shows "confined d p"
proof (cases "f = []")
  case True
  with assms have "p = dir_prefix d @ []"
    by (simp add: safe_join_def posixpath_isabs_def posixpath_join_relative
        startswith_def str_def split: if_splits)
  then show ?thesis
    by (simp only: confined_dir_prefix) simp
next
  case nonempty: False
  from assms have "safe_join d f \<noteq> None" by simp
  with safe_join_rejects_iff [OF nonempty] have "\<not> escapes f" by simp
  then have rel: "\<not> startswith f (str ''/'')" and nc: "\<not> climbs 0 (py_split sep f)"
    by (simp_all add: escapes_def)
  from nonempty rel show ?thesis
  proof (cases rule: normpath_relative_cases)
    case (inside names)
    note acc = normpath_inside_accepted [OF inside(2,3)]
    from assms nonempty acc have "p = posixpath_join d (posixpath_normpath f)"
      by (simp add: safe_join_nonempty)
    with acc(1) have "p = dir_prefix d @ posixpath_normpath f"
      by (simp add: posixpath_join_relative)
    with acc(4) show ?thesis by (simp only: confined_dir_prefix) simp
  next
    case outside
    with nc show ?thesis by simp
  qed
qed

section \<open>Effects of \<open>generate_qr_code\<close>\<close>

lemma generate_qr_code_try_files:
  "fst (generate_qr_code_try e d u fs) = fs
   \<or> (\<exists>p left. safe_join d (u @ str ''.png'') = Some p
          \<and> fst (generate_qr_code_try e d u fs) = fs(p := left))"
  by (auto simp: generate_qr_code_try_def split: option.splits save_outcome.splits)

lemma generate_qr_code_fst:
  "fst (generate_qr_code e d u fs) = fst (generate_qr_code_try e d u fs)"
  by (cases "generate_qr_code_try e d u fs")
     (auto simp: generate_qr_code_def split: sum.splits)

lemma generate_qr_code_try_rejected:
  assumes "safe_join d (u @ str ''.png'') = None"
  shows "fst (generate_qr_code_try e d u fs) = fs"
    and "\<exists>err. snd (generate_qr_code_try e d u fs) = Inl err"
  using assms by (auto simp: generate_qr_code_try_def split: option.splits)

lemma generate_qr_code_try_invalid:
  assumes "snd (generate_qr_code_try e d u fs) = Inl (QRCodeError ''Invalid QR code path'')"
  shows "fst (generate_qr_code_try e d u fs) = fs"
  using assms
  by (auto simp: generate_qr_code_try_def split: option.splits save_outcome.splits if_splits)

lemma normpath_no_sep:
  assumes "sep \<notin> set f" and "f \<noteq> []" and "f \<noteq> str ''.''" and "f \<noteq> str ''..''"
  shows "posixpath_normpath f = f"
proof -
  from assms(1,2) have "\<not> startswith f (str ''/'')"
    by (cases f) (auto simp: startswith_def str_def)
  with assms show ?thesis
    by (simp add: posixpath_normpath_def py_split_single normpath_step_def)
qed

lemma png_name_normal:
  assumes "sep \<notin> set u"
  shows "posixpath_normpath (u @ str ''.png'') = u @ str ''.png''"
proof (rule normpath_no_sep)
  show "sep \<notin> set (u @ str ''.png'')" using assms by (simp add: str_def)
  show "u @ str ''.png'' \<noteq> []" by (simp add: str_def)
  have "4 \<le> length (u @ str ''.png'')" by (simp add: str_def)
  then show "u @ str ''.png'' \<noteq> str ''.''" and "u @ str ''.png'' \<noteq> str ''..''"
    by (auto simp: str_def)
qed

lemma generate_qr_code_success:
  assumes "generate_qr_code e d u fs = (fs1, Inr p)"
  shows "safe_join d (u @ str ''.png'') = Some p"
    and "\<exists>img. make_image e u = Some img \<and> fs1 = fs(p \<mapsto> img)"
  using assms
  by (auto simp: generate_qr_code_def generate_qr_code_try_def
      split: option.splits save_outcome.splits if_splits sum.splits prod.splits)

lemma safe_join_evil:
  "safe_join (str ''qrcodes'') (str ''../evil'' @ str ''.png'') = None"
  by (simp add: path_eval)

lemma gen_alice:
  "generate_qr_code env0 (str ''qrcodes'') (str ''alice'') Map.empty
     = ([str ''qrcodes/alice.png'' \<mapsto> str ''alice''], Inr (str ''qrcodes/alice.png''))"
  by (simp add: generate_qr_code_def generate_qr_code_try_def env0_def path_eval)

section \<open>QRCodeService: the destination stays in the output directory\<close>

text \<open>
  Claim C1, as the code has it.  A \<open>user_id\<close> whose file name \<^verbatim>\<open><user_id>.png\<close>, read
  component by component from the output directory, steps above that directory or is
  absolute (such as \<^verbatim>\<open>../evil\<close>) makes \<open>generate_qr_code\<close> fail with \<open>QRCodeError\<close> and
  leaves every file as it was.  For every \<open>user_id\<close>, a path whose content the call
  changes is confined to the output directory.  When the body raises its
  \<^verbatim>\<open>Invalid QR code path\<close>, no file has been written.
\<close>

theorem generate_qr_code_confined:
  "(escapes (user_id @ str ''.png'') \<longrightarrow>
      generate_qr_code e qr_codes_dir user_id fs
        = (fs, Inl (QRCodeError ''Failed to generate QR code'')))
   \<and> (fst (generate_qr_code e qr_codes_dir user_id fs) p \<noteq> fs p \<longrightarrow>
        confined qr_codes_dir p)
   \<and> (snd (generate_qr_code_try e qr_codes_dir user_id fs)
         = Inl (QRCodeError ''Invalid QR code path'') \<longrightarrow>
        fst (generate_qr_code e qr_codes_dir user_id fs) = fs)"
proof (intro conjI impI)
  assume esc: "escapes (user_id @ str ''.png'')"
  have "user_id @ str ''.png'' \<noteq> []" by (simp add: str_def)
  with esc have "safe_join qr_codes_dir (user_id @ str ''.png'') = None"
    by (simp add: safe_join_rejects_iff)
  from generate_qr_code_try_rejected [OF this, of e fs]
  show "generate_qr_code e qr_codes_dir user_id fs
          = (fs, Inl (QRCodeError ''Failed to generate QR code''))"
    by (cases "generate_qr_code_try e qr_codes_dir user_id fs")
       (auto simp: generate_qr_code_def)
next
  assume ch: "fst (generate_qr_code e qr_codes_dir user_id fs) p \<noteq> fs p"
  with generate_qr_code_try_files [of e qr_codes_dir user_id fs]
  obtain q left where "safe_join qr_codes_dir (user_id @ str ''.png'') = Some q"
    and "fst (generate_qr_code_try e qr_codes_dir user_id fs) = fs(q := left)"
    by (auto simp: generate_qr_code_fst)
  with ch have "p = q" by (auto simp: generate_qr_code_fst split: if_splits)
  with \<open>safe_join qr_codes_dir (user_id @ str ''.png'') = Some q\<close>
  show "confined qr_codes_dir p" by (simp add: safe_join_confined)
next
  assume "snd (generate_qr_code_try e qr_codes_dir user_id fs)
            = Inl (QRCodeError ''Invalid QR code path'')"
  then show "fst (generate_qr_code e qr_codes_dir user_id fs) = fs"
    by (simp add: generate_qr_code_fst generate_qr_code_try_invalid)
qed

theorem generate_qr_code_confined_witness:
  "escapes (str ''../evil'' @ str ''.png'')
   \<and> generate_qr_code env0 (str ''qrcodes'') (str ''../evil'') Map.empty
        = (Map.empty, Inl (QRCodeError ''Failed to generate QR code''))
   \<and> snd (generate_qr_code_try env0 (str ''qrcodes'') (str ''../evil'') Map.empty)
        = Inl (QRCodeError ''Invalid QR code path'')
   \<and> fst (generate_qr_code env0 (str ''qrcodes'') (str ''alice'') Map.empty)
        (str ''qrcodes/alice.png'') \<noteq> None
   \<and> confined (str ''qrcodes'') (str ''qrcodes/alice.png'')"
proof -
  have h1: "escapes (str ''../evil'' @ str ''.png'')"
    by (simp add: escapes_def startswith_def str_def)
  have h2: "snd (generate_qr_code_try env0 (str ''qrcodes'') (str ''../evil'') Map.empty)
        = Inl (QRCodeError ''Invalid QR code path'')"
    by (simp add: generate_qr_code_try_def env0_def safe_join_evil)
  have h3: "fst (generate_qr_code env0 (str ''qrcodes'') (str ''alice'') Map.empty)
        (str ''qrcodes/alice.png'') \<noteq> Map.empty (str ''qrcodes/alice.png'')"
    by (simp add: gen_alice)
  from generate_qr_code_confined [where user_id = "str ''../evil''" and e = env0
      and qr_codes_dir = "str ''qrcodes''" and fs = Map.empty
      and p = "str ''qrcodes/alice.png''"] h1
  have a: "generate_qr_code env0 (str ''qrcodes'') (str ''../evil'') Map.empty
        = (Map.empty, Inl (QRCodeError ''Failed to generate QR code''))"
    by blast
  from generate_qr_code_confined [where user_id = "str ''alice''" and e = env0
      and qr_codes_dir = "str ''qrcodes''" and fs = Map.empty
      and p = "str ''qrcodes/alice.png''"] h3
  have b: "confined (str ''qrcodes'') (str ''qrcodes/alice.png'')"
    by blast
  from h1 h2 h3 a b show ?thesis by simp
qed

text \<open>
  The claim as worded asks that every \<open>user_id\<close> containing the sequence \<^verbatim>\<open>../\<close> fail.
  \<^verbatim>\<open>a/../b\<close> contains it, stays inside the directory, and is accepted: the image is
  written to \<^verbatim>\<open>qrcodes/b.png\<close>.
\<close>

theorem inner_dotdot_accepted:
  "str ''a/../b'' = str ''a/'' @ str ''../'' @ str ''b''
   \<and> generate_qr_code env0 (str ''qrcodes'') (str ''a/../b'') Map.empty
        = ([str ''qrcodes/b.png'' \<mapsto> str ''a/../b''], Inr (str ''qrcodes/b.png''))"
  by (simp add: generate_qr_code_def generate_qr_code_try_def env0_def path_eval)

section \<open>Request handlers: validation of \<open>user_id\<close>\<close>

lemma validate_user_id_string:
  "validate_user_id (JStr s) = Inr (strip s \<noteq> [] \<and> length s \<le> 50)"
  by (cases "s = []") (auto simp: validate_user_id_def strip_def)

lemma validate_user_id_null: "validate_user_id JNull = Inr False"
  by (simp add: validate_user_id_def)

lemma invalid_user_id_rejected:
  assumes "dict_get (JObj kvs) (str ''user_id'') = Inr v"
    and "v = JNull \<or> (v = JStr s \<and> (strip s = [] \<or> 50 < length s))"
  shows "generate_qr e qr_codes_dir (Returns (JObj kvs)) w =
           (w, \<lparr>status = 400,
                body = error_body (if kvs = [] then ''No data provided''
                                   else ''Invalid user ID'')\<rparr>)"
    and "mark_attendance e (Returns (JObj kvs)) w =
           (w, \<lparr>status = 400,
                body = error_body (if kvs = [] then ''No data provided''
                                   else ''Invalid user ID'')\<rparr>)"
proof -
  from assms(2) have inv: "validate_user_id v = Inr False"
    by (auto simp: validate_user_id_string validate_user_id_null)
  from assms(1) inv
  show "generate_qr e qr_codes_dir (Returns (JObj kvs)) w =
           (w, \<lparr>status = 400,
                body = error_body (if kvs = [] then ''No data provided''
                                   else ''Invalid user ID'')\<rparr>)"
    by (simp add: generate_qr_def generate_qr_try_def)
  from assms(1) inv
  show "mark_attendance e (Returns (JObj kvs)) w =
           (w, \<lparr>status = 400,
                body = error_body (if kvs = [] then ''No data provided''
                                   else ''Invalid user ID'')\<rparr>)"
    by (simp add: mark_attendance_def mark_attendance_handler_try_def)
qed

lemma strip_blank: "strip (str ''   '') = []"
  by (simp add: strip_def isspace_def str_def)

lemma validate_user_id_true_iff:
  "validate_user_id v = Inr True \<longleftrightarrow> (\<exists>s. v = JStr s \<and> strip s \<noteq> [] \<and> length s \<le> 50)"
proof (cases v)
  case (JStr s)
  then show ?thesis by (simp add: validate_user_id_string)
qed (auto simp: validate_user_id_def split: if_splits)

lemma validate_user_id_raises_iff:
  "(\<exists>err. validate_user_id v = Inl err) \<longleftrightarrow> truthy v \<and> (\<forall>s. v \<noteq> JStr s)"
  by (cases v) (auto simp: validate_user_id_def)

lemma not_valid_rejected:
  assumes "dict_get (JObj kvs) (str ''user_id'') = Inr v"
    and "validate_user_id v = Inr False"
  shows "generate_qr e qr_codes_dir (Returns (JObj kvs)) w =
           (w, \<lparr>status = 400,
                body = error_body (if kvs = [] then ''No data provided''
                                   else ''Invalid user ID'')\<rparr>)"
    and "mark_attendance e (Returns (JObj kvs)) w =
           (w, \<lparr>status = 400,
                body = error_body (if kvs = [] then ''No data provided''
                                   else ''Invalid user ID'')\<rparr>)"
  using assms
  by (simp_all add: generate_qr_def generate_qr_try_def mark_attendance_def
      mark_attendance_handler_try_def)

lemma raising_candidate_500:
  assumes "dict_get (JObj kvs) (str ''user_id'') = Inr v"
    and "validate_user_id v = Inl err"
  shows "generate_qr e qr_codes_dir (Returns (JObj kvs)) w =
           (w, \<lparr>status = 500, body = error_body ''Internal server error''\<rparr>)"
    and "mark_attendance e (Returns (JObj kvs)) w =
           (w, \<lparr>status = 500, body = error_body ''Internal server error''\<rparr>)"
proof -
  from assms(2) have err: "err = AttributeError" and t: "truthy v"
    by (auto simp: validate_user_id_def split: if_splits json.splits)
  from assms(1) t have ne: "kvs \<noteq> []" by auto
  from assms err ne
  show "generate_qr e qr_codes_dir (Returns (JObj kvs)) w =
           (w, \<lparr>status = 500, body = error_body ''Internal server error''\<rparr>)"
    by (simp add: generate_qr_def generate_qr_try_def)
  from assms err ne
  show "mark_attendance e (Returns (JObj kvs)) w =
           (w, \<lparr>status = 500, body = error_body ''Internal server error''\<rparr>)"
    by (simp add: mark_attendance_def mark_attendance_handler_try_def)
qed

text \<open>
  Claim C2 asks that \<open>validate_user_id\<close> return true exactly for a candidate that is not
  null, whose stripped form is not empty and whose length is at most 50, and that every
  other candidate sent to a POST endpoint be answered with status 400 and a body
  \<^verbatim>\<open>{"error": message}\<close>.  The code does this for every candidate on which
  \<open>validate_user_id\<close> returns (\<open>validate_user_id_true_iff\<close>, \<open>not_valid_rejected\<close>).  It
  does not for a candidate that is true in Python and not a string, where \<^verbatim>\<open>strip\<close>
  raises (\<open>validate_user_id_raises_iff\<close>, \<open>raising_candidate_500\<close>).  At the number 123:
  the candidate is not accepted, and both endpoints answer with status 500 and the body
  \<^verbatim>\<open>{"error": "Internal server error"}\<close>.
\<close>

theorem non_string_user_id_500:
  "validate_user_id (JInt 123) = Inl AttributeError
   \<and> snd (generate_qr env0 (str ''qrcodes'')
            (Returns (JObj [(str ''user_id'', JInt 123)])) world0)
       = \<lparr>status = 500, body = error_body ''Internal server error''\<rparr>
   \<and> snd (mark_attendance env0 (Returns (JObj [(str ''user_id'', JInt 123)])) world0)
       = \<lparr>status = 500, body = error_body ''Internal server error''\<rparr>"
  by (simp add: validate_user_id_def generate_qr_def generate_qr_try_def
      mark_attendance_def mark_attendance_handler_try_def)

text \<open>
  Claim C3.  For an invalid \<open>user_id\<close> (null or missing, an empty or all-blank string, a
  string longer than 50), both POST endpoints answer with status 400 and return the
  stored state, table and files, exactly as it was.
\<close>

theorem invalid_user_id_no_write:
  assumes "dict_get (JObj kvs) (str ''user_id'') = Inr v"
    and "v = JNull \<or> (v = JStr s \<and> (strip s = [] \<or> 50 < length s))"
  shows "status (snd (generate_qr e qr_codes_dir (Returns (JObj kvs)) w)) = 400
    \<and> fst (generate_qr e qr_codes_dir (Returns (JObj kvs)) w) = w
    \<and> status (snd (mark_attendance e (Returns (JObj kvs)) w)) = 400
    \<and> fst (mark_attendance e (Returns (JObj kvs)) w) = w"
  by (simp add: invalid_user_id_rejected [OF assms])

theorem invalid_user_id_no_write_witness:
  "dict_get (JObj [(str ''user_id'', JStr (str ''   ''))]) (str ''user_id'')
     = Inr (JStr (str ''   ''))
   \<and> strip (str ''   '') = []
   \<and> status (snd (generate_qr env0 (str ''qrcodes'')
        (Returns (JObj [(str ''user_id'', JStr (str ''   ''))])) world0)) = 400
   \<and> fst (generate_qr env0 (str ''qrcodes'')
        (Returns (JObj [(str ''user_id'', JStr (str ''   ''))])) world0) = world0
   \<and> status (snd (mark_attendance env0
        (Returns (JObj [(str ''user_id'', JStr (str ''   ''))])) world0)) = 400
   \<and> fst (mark_attendance env0
        (Returns (JObj [(str ''user_id'', JStr (str ''   ''))])) world0) = world0"
proof -
  have g: "dict_get (JObj [(str ''user_id'', JStr (str ''   ''))]) (str ''user_id'')
     = Inr (JStr (str ''   ''))"
    by simp
  have i: "JStr (str ''   '') = JNull
      \<or> (JStr (str ''   '') = JStr (str ''   '')
          \<and> (strip (str ''   '') = [] \<or> 50 < length (str ''   '')))"
    by (simp add: strip_blank)
  from invalid_user_id_no_write [OF g i, of env0 "str ''qrcodes''" world0] g strip_blank
  show ?thesis by blast
qed

section \<open>AttendanceService: rows\<close>

lemma foldr_max_ge_start: "s \<le> foldr max xs (s::int)"
  by (induction xs) auto

lemma foldr_max_ge_elem: "x \<in> set xs \<Longrightarrow> x \<le> foldr max xs (s::int)"
  by (induction xs) auto

lemma mark_attendance_success:
  assumes "AttendanceService_mark_attendance e user_id d = (d1, Inr u)"
  shows "\<not> connect_error e"
    and "attendance d \<noteq> None"
    and "attendance d1 = Some (table d @
           [\<lparr>row_id = foldr max (map row_id (table d)) (sqlite_sequence d) + 1,
             row_user_id = user_id, row_timestamp = current_timestamp e,
             row_created_at = current_timestamp e\<rparr>])"
    and "sqlite_sequence d1 = foldr max (map row_id (table d)) (sqlite_sequence d) + 1"
    and "connections d1 = Suc (connections d)"
  using assms
  by (auto simp: AttendanceService_mark_attendance_def mark_attendance_try_def
      get_connection_def insert_attendance_def table_def Let_def
      split: if_splits option.splits sum.splits exn.splits)

lemma mark_attendance_table:
  "\<exists>new. table (fst (AttendanceService_mark_attendance e user_id d)) = table d @ new"
  by (auto simp: AttendanceService_mark_attendance_def mark_attendance_try_def
      get_connection_def insert_attendance_def table_def Let_def
      split: if_splits option.splits sum.splits exn.splits)

lemma get_attendance_records_success:
  assumes "get_attendance_records e d = (d1, Inr records)"
  shows "records = order_by_timestamp_desc (table d)"
    and "attendance d1 = attendance d"
  using assms
  by (auto simp: get_attendance_records_def get_attendance_records_try_def
      get_connection_def select_attendance_def table_def
      split: if_splits option.splits sum.splits exn.splits)

lemma get_attendance_records_table:
  "table (fst (get_attendance_records e d)) = table d"
  by (auto simp: get_attendance_records_def get_attendance_records_try_def
      get_connection_def select_attendance_def table_def
      split: if_splits option.splits sum.splits exn.splits)

lemma init_db_table: "table (fst (init_db e d)) = table d"
  by (auto simp: init_db_def get_connection_def table_def Let_def)

lemma set_order_by_timestamp_desc [simp]:
  "set (order_by_timestamp_desc rows) = set rows"
  by (simp add: order_by_timestamp_desc_def)

lemma length_order_by_timestamp_desc [simp]:
  "length (order_by_timestamp_desc rows) = length rows"
  by (simp add: order_by_timestamp_desc_def)

lemma order_by_timestamp_desc_sorted:
  "sorted_wrt (\<lambda>a b. row_timestamp b \<le> row_timestamp a) (order_by_timestamp_desc rows)"
proof -
  have "sorted (map row_timestamp (sort_key row_timestamp (rev rows)))"
    by (rule sorted_sort_key)
  then have "sorted_wrt (\<lambda>a b. row_timestamp a \<le> row_timestamp b)
               (sort_key row_timestamp (rev rows))"
    by (simp add: sorted_map)
  then show ?thesis
    by (simp add: order_by_timestamp_desc_def sorted_wrt_rev)
qed

lemma alice_encodable: "utf8_encodable (str ''alice'')"
  by (simp add: utf8_encodable_def str_def)

lemmas db_eval = AttendanceService_mark_attendance_def mark_attendance_try_def
  get_attendance_records_def get_attendance_records_try_def get_connection_def
  insert_attendance_def select_attendance_def order_by_timestamp_desc_def

lemma mark_alice_db1:
  "AttendanceService_mark_attendance env0 (str ''alice'') db1
     = (\<lparr>attendance = Some [\<lparr>row_id = 1, row_user_id = str ''bob'', row_timestamp = 500,
                              row_created_at = 500\<rparr>,
                            \<lparr>row_id = 2, row_user_id = str ''alice'', row_timestamp = 1000,
                              row_created_at = 1000\<rparr>],
         idx_user_id_timestamp = True, sqlite_sequence = 2, connections = 1\<rparr>, Inr ())"
  by (simp add: db_eval env0_def db1_def alice_encodable)

lemma list_after_alice:
  "get_attendance_records env1
     \<lparr>attendance = Some [\<lparr>row_id = 1, row_user_id = str ''bob'', row_timestamp = 500,
                              row_created_at = 500\<rparr>,
                            \<lparr>row_id = 2, row_user_id = str ''alice'', row_timestamp = 1000,
                              row_created_at = 1000\<rparr>],
         idx_user_id_timestamp = True, sqlite_sequence = 2, connections = 1\<rparr>
   = (\<lparr>attendance = Some [\<lparr>row_id = 1, row_user_id = str ''bob'', row_timestamp = 500,
                              row_created_at = 500\<rparr>,
                            \<lparr>row_id = 2, row_user_id = str ''alice'', row_timestamp = 1000,
                              row_created_at = 1000\<rparr>],
         idx_user_id_timestamp = True, sqlite_sequence = 2, connections = 2\<rparr>,
      Inr [\<lparr>row_id = 2, row_user_id = str ''alice'', row_timestamp = 1000,
             row_created_at = 1000\<rparr>,
           \<lparr>row_id = 1, row_user_id = str ''bob'', row_timestamp = 500,
             row_created_at = 500\<rparr>])"
  by (simp add: db_eval env1_def env0_def)

lemma mark_twice:
  "mark_repeatedly [env0, env1] (str ''alice'') db0
     = Some \<lparr>attendance = Some [\<lparr>row_id = 1, row_user_id = str ''alice'',
                                 row_timestamp = 1000, row_created_at = 1000\<rparr>,
                                \<lparr>row_id = 2, row_user_id = str ''alice'',
                                 row_timestamp = 2000, row_created_at = 2000\<rparr>],
             idx_user_id_timestamp = True, sqlite_sequence = 2, connections = 2\<rparr>"
  by (simp add: db_eval env1_def env0_def db0_def alice_encodable)


text \<open>
  When \<open>mark_attendance\<close> succeeds for a \<open>user_id\<close> and \<open>get_attendance_records\<close> then
  succeeds, the list returned holds a record with that \<open>user_id\<close>, holds exactly the rows
  of the table, and is ordered by timestamp descending: of any two records, the one
  placed first has the greater or equal timestamp.
\<close>

lemma mark_then_list:
  assumes "AttendanceService_mark_attendance e user_id d = (d1, Inr u)"
    and "get_attendance_records e' d1 = (d2, Inr records)"
  shows "(\<exists>r\<in>set records. row_user_id r = user_id)
    \<and> set records = set (table d1)
    \<and> (\<forall>i j. i < j \<and> j < length records \<longrightarrow>
          row_timestamp (records ! j) \<le> row_timestamp (records ! i))"
proof -
  note m = mark_attendance_success [OF assms(1)]
  note l = get_attendance_records_success [OF assms(2)]
  from m(3) have "\<exists>r\<in>set (table d1). row_user_id r = user_id"
    by (simp add: table_def)
  moreover from l(1) have s: "set records = set (table d1)" by simp
  moreover have "sorted_wrt (\<lambda>a b. row_timestamp b \<le> row_timestamp a) records"
    using l(1) order_by_timestamp_desc_sorted by simp
  then have "\<forall>i j. i < j \<and> j < length records \<longrightarrow>
          row_timestamp (records ! j) \<le> row_timestamp (records ! i)"
    by (simp add: sorted_wrt_iff_nth_less)
  ultimately show ?thesis by simp
qed

lemma mark_then_list_example:
  "AttendanceService_mark_attendance env0 (str ''alice'') db1
     = (\<lparr>attendance = Some [\<lparr>row_id = 1, row_user_id = str ''bob'', row_timestamp = 500,
                              row_created_at = 500\<rparr>,
                            \<lparr>row_id = 2, row_user_id = str ''alice'', row_timestamp = 1000,
                              row_created_at = 1000\<rparr>],
         idx_user_id_timestamp = True, sqlite_sequence = 2, connections = 1\<rparr>, Inr ())
   \<and> snd (get_attendance_records env1
        (fst (AttendanceService_mark_attendance env0 (str ''alice'') db1)))
       = Inr [\<lparr>row_id = 2, row_user_id = str ''alice'', row_timestamp = 1000,
               row_created_at = 1000\<rparr>,
             \<lparr>row_id = 1, row_user_id = str ''bob'', row_timestamp = 500,
               row_created_at = 500\<rparr>]
   \<and> (\<exists>r\<in>set [\<lparr>row_id = 2, row_user_id = str ''alice'', row_timestamp = 1000,
                   row_created_at = 1000\<rparr>,
                 \<lparr>row_id = 1, row_user_id = str ''bob'', row_timestamp = 500,
                   row_created_at = 500\<rparr>]. row_user_id r = str ''alice'')
   \<and> row_timestamp ([\<lparr>row_id = 2, row_user_id = str ''alice'', row_timestamp = 1000,
                        row_created_at = 1000\<rparr>,
                      \<lparr>row_id = 1, row_user_id = str ''bob'', row_timestamp = 500,
                        row_created_at = 500\<rparr>] ! 1)
       \<le> row_timestamp ([\<lparr>row_id = 2, row_user_id = str ''alice'', row_timestamp = 1000,
                        row_created_at = 1000\<rparr>,
                      \<lparr>row_id = 1, row_user_id = str ''bob'', row_timestamp = 500,
                        row_created_at = 500\<rparr>] ! 0)"
proof -
  let ?records = "[\<lparr>row_id = 2, row_user_id = str ''alice'', row_timestamp = 1000,
                    row_created_at = 1000\<rparr>,
                  \<lparr>row_id = 1, row_user_id = str ''bob'', row_timestamp = 500,
                    row_created_at = 500\<rparr>]"
  note t = mark_then_list [OF mark_alice_db1 list_after_alice]
  from t have a: "\<exists>r\<in>set ?records. row_user_id r = str ''alice''"
    by blast
  from t have "(0::nat) < 1 \<and> 1 < length ?records \<longrightarrow>
      row_timestamp (?records ! 1) \<le> row_timestamp (?records ! 0)"
    by blast
  then have b: "row_timestamp (?records ! 1) \<le> row_timestamp (?records ! 0)"
    by simp
  have l: "snd (get_attendance_records env1
        (fst (AttendanceService_mark_attendance env0 (str ''alice'') db1))) = Inr ?records"
    by (simp only: mark_alice_db1 fst_conv list_after_alice snd_conv)
  from mark_alice_db1 l a b show ?thesis by blast
qed

text \<open>
  The call succeeds when nothing fails in the store and the \<open>user_id\<close> has a UTF-8
  encoding; without one it raises and the table stays as it was.
\<close>

lemma mark_attendance_succeeds:
  assumes "\<not> connect_error e" and "\<not> execute_error e 0" and "\<not> commit_error e"
    and "attendance d = Some rows"
    and "foldr max (map row_id rows) (sqlite_sequence d) < 9223372036854775807"
    and "utf8_encodable user_id"
  shows "snd (AttendanceService_mark_attendance e user_id d) = Inr ()"
  using assms
  by (simp add: AttendanceService_mark_attendance_def mark_attendance_try_def
      get_connection_def insert_attendance_def Let_def)

lemma mark_attendance_unencodable:
  assumes "\<not> utf8_encodable user_id"
  shows "snd (AttendanceService_mark_attendance e user_id d) \<noteq> Inr ()"
    and "table (fst (AttendanceService_mark_attendance e user_id d)) = table d"
  using assms
  by (auto simp: AttendanceService_mark_attendance_def mark_attendance_try_def
      get_connection_def insert_attendance_def table_def split: option.splits)

text \<open>
  Claim C4 asks, for every valid \<open>user_id\<close>, that marking and then listing give a list
  with a record of that \<open>user_id\<close>.  The string made of the one code point \<^verbatim>\<open>U+D800\<close> is
  valid for \<open>validate_user_id\<close>, and the code cannot mark it: in a store where nothing
  fails, the \<^verbatim>\<open>INSERT\<close> raises \<open>UnicodeEncodeError\<close>, which the clause
  \<^verbatim>\<open>except sqlite3.Error\<close> lets pass; no row is inserted, the endpoint answers with
  status 500 and \<^verbatim>\<open>{"error": "Internal server error"}\<close>, and the list read afterwards is
  empty.
\<close>

theorem surrogate_user_id_not_marked:
  "validate_user_id (JStr [55296]) = Inr True
   \<and> AttendanceService_mark_attendance env0 [55296] db0
       = (db0\<lparr>connections := 1\<rparr>, Inl UnicodeEncodeError)
   \<and> snd (mark_attendance env0 (Returns (JObj [(str ''user_id'', JStr [55296])])) world0)
       = \<lparr>status = 500, body = error_body ''Internal server error''\<rparr>
   \<and> snd (get_attendance_records env1
            (fst (AttendanceService_mark_attendance env0 [55296] db0)))
       = Inr []"
proof -
  have v: "validate_user_id (JStr [55296]) = Inr True"
    by (simp add: validate_user_id_def strip_def isspace_def)
  have m: "AttendanceService_mark_attendance env0 [55296] db0
       = (db0\<lparr>connections := 1\<rparr>, Inl UnicodeEncodeError)"
    by (simp add: AttendanceService_mark_attendance_def mark_attendance_try_def
        get_connection_def insert_attendance_def utf8_encodable_def env0_def db0_def)
  have h: "snd (mark_attendance env0 (Returns (JObj [(str ''user_id'', JStr [55296])])) world0)
       = \<lparr>status = 500, body = error_body ''Internal server error''\<rparr>"
    by (simp add: mark_attendance_def mark_attendance_handler_try_def v m world0_def)
  have "snd (get_attendance_records env1 (db0\<lparr>connections := 1\<rparr>)) = Inr []"
    by (simp add: get_attendance_records_def get_attendance_records_try_def
        get_connection_def select_attendance_def order_by_timestamp_desc_def
        env1_def env0_def db0_def)
  then have l: "snd (get_attendance_records env1
            (fst (AttendanceService_mark_attendance env0 [55296] db0))) = Inr []"
    by (simp only: m fst_conv)
  from v m h l show ?thesis by blast
qed

text \<open>
  Claim C5.  \<open>n\<close> successful calls of \<open>mark_attendance\<close> with one \<open>user_id\<close> append
  exactly \<open>n\<close> rows to the table, one per call (a single call is \<open>n = 1\<close>).  Each new
  row carries the given \<open>user_id\<close> and the timestamp of the store at its call, and the
  ids, assigned by the store, differ from each other and exceed every id present
  before.
\<close>

theorem mark_repeatedly_distinct_rows:
  assumes "mark_repeatedly es user_id d = Some d'"
  shows "\<exists>new. table d' = table d @ new
            \<and> length new = length es
            \<and> (\<forall>r\<in>set new. row_user_id r = user_id)
            \<and> map row_timestamp new = map current_timestamp es
            \<and> distinct (map row_id new)
            \<and> (\<forall>r\<in>set new. \<forall>r0\<in>set (table d). row_id r0 < row_id r)"
  using assms
proof (induction es arbitrary: d)
  case Nil
  then show ?case by simp
next
  case (Cons e es)
  from Cons.prems obtain d1 u where
    first: "AttendanceService_mark_attendance e user_id d = (d1, Inr u)"
    and rest: "mark_repeatedly es user_id d1 = Some d'"
    by (auto split: prod.splits sum.splits)
  define r1 where "r1 = \<lparr>row_id = foldr max (map row_id (table d)) (sqlite_sequence d) + 1,
             row_user_id = user_id, row_timestamp = current_timestamp e,
             row_created_at = current_timestamp e\<rparr>"
  from mark_attendance_success(3) [OF first] have t1: "table d1 = table d @ [r1]"
    by (simp add: table_def r1_def)
  have above: "row_id r0 < row_id r1" if "r0 \<in> set (table d)" for r0
  proof -
    from that have "row_id r0 \<le> foldr max (map row_id (table d)) (sqlite_sequence d)"
      by (intro foldr_max_ge_elem) simp
    then show ?thesis by (simp add: r1_def)
  qed
  from Cons.IH [OF rest] obtain new where
    n: "table d' = table d1 @ new" "length new = length es"
      "\<forall>r\<in>set new. row_user_id r = user_id"
      "map row_timestamp new = map current_timestamp es"
      "distinct (map row_id new)"
      "\<forall>r\<in>set new. \<forall>r0\<in>set (table d1). row_id r0 < row_id r"
    by blast
  from n(6) t1 have after: "\<forall>r\<in>set new. row_id r1 < row_id r" by simp
  have "table d' = table d @ (r1 # new)" using n(1) t1 by simp
  moreover have "length (r1 # new) = length (e # es)" using n(2) by simp
  moreover have "\<forall>r\<in>set (r1 # new). row_user_id r = user_id"
    using n(3) by (simp add: r1_def)
  moreover have "map row_timestamp (r1 # new) = map current_timestamp (e # es)"
    using n(4) by (simp add: r1_def)
  moreover have "distinct (map row_id (r1 # new))"
    using n(5) after by auto
  moreover have "\<forall>r\<in>set (r1 # new). \<forall>r0\<in>set (table d). row_id r0 < row_id r"
    using above n(6) t1 by auto
  ultimately show ?case by blast
qed

theorem mark_repeatedly_distinct_rows_witness:
  "mark_repeatedly [env0, env1] (str ''alice'') db0
     = Some \<lparr>attendance = Some [\<lparr>row_id = 1, row_user_id = str ''alice'',
                                 row_timestamp = 1000, row_created_at = 1000\<rparr>,
                                \<lparr>row_id = 2, row_user_id = str ''alice'',
                                 row_timestamp = 2000, row_created_at = 2000\<rparr>],
             idx_user_id_timestamp = True, sqlite_sequence = 2, connections = 2\<rparr>
   \<and> (\<exists>new. table \<lparr>attendance = Some [\<lparr>row_id = 1, row_user_id = str ''alice'',
                                 row_timestamp = 1000, row_created_at = 1000\<rparr>,
                                \<lparr>row_id = 2, row_user_id = str ''alice'',
                                 row_timestamp = 2000, row_created_at = 2000\<rparr>],
             idx_user_id_timestamp = True, sqlite_sequence = 2, connections = 2\<rparr>
             = table db0 @ new
          \<and> length new = length [env0, env1]
          \<and> (\<forall>r\<in>set new. row_user_id r = str ''alice'')
          \<and> map row_timestamp new = map current_timestamp [env0, env1]
          \<and> distinct (map row_id new)
          \<and> (\<forall>r\<in>set new. \<forall>r0\<in>set (table db0). row_id r0 < row_id r))"
  using mark_repeatedly_distinct_rows [OF mark_twice] mark_twice by blast

section \<open>QRCodeService: the path of the artifact\<close>

text \<open>
  Claim C6, as the code has it.  A successful \<open>generate_qr_code\<close> writes the image to the
  path \<open>posixpath_join qr_codes_dir (posixpath_normpath (user_id + ".png"))\<close> and
  returns that path.  It is exactly \<^verbatim>\<open><output_dir>/<user_id>.png\<close> when the \<open>user_id\<close> has
  no \<^verbatim>\<open>/\<close> (the directory being neither empty nor ended by \<^verbatim>\<open>/\<close>).  A second successful
  call with the same \<open>user_id\<close> returns the same path and leaves the set of files as the
  first call left it; with the same image, the files themselves are equal.
\<close>

theorem generate_qr_code_artifact_path:
  assumes "generate_qr_code e qr_codes_dir user_id fs = (fs1, Inr qr_path)"
  shows "qr_path = posixpath_join qr_codes_dir (posixpath_normpath (user_id @ str ''.png''))
    \<and> (\<exists>img. make_image e user_id = Some img \<and> fs1 = fs(qr_path \<mapsto> img))
    \<and> (sep \<notin> set user_id \<and> qr_codes_dir \<noteq> [] \<and> \<not> endswith qr_codes_dir (str ''/'') \<longrightarrow>
          qr_path = qr_codes_dir @ str ''/'' @ user_id @ str ''.png'')
    \<and> (generate_qr_code e' qr_codes_dir user_id fs1 = (fs2, Inr qr_path') \<longrightarrow>
          qr_path' = qr_path \<and> dom fs2 = dom fs1
          \<and> (make_image e' user_id = make_image e user_id \<longrightarrow> fs2 = fs1))"
proof -
  note s = generate_qr_code_success [OF assms]
  have ne: "user_id @ str ''.png'' \<noteq> []" by (simp add: str_def)
  from s(1) ne have p: "qr_path = posixpath_join qr_codes_dir (posixpath_normpath (user_id @ str ''.png''))"
    by (simp add: safe_join_nonempty split: if_splits)
  have plain: "qr_path = qr_codes_dir @ str ''/'' @ user_id @ str ''.png''"
    if "sep \<notin> set user_id" "qr_codes_dir \<noteq> []" "\<not> endswith qr_codes_dir (str ''/'')"
  proof -
    from that(1) have n: "posixpath_normpath (user_id @ str ''.png'') = user_id @ str ''.png''"
      by (rule png_name_normal)
    from that(1) have "\<not> startswith (user_id @ str ''.png'') (str ''/'')"
      by (cases user_id) (auto simp: startswith_def str_def)
    with p n that(2,3) show ?thesis by (simp add: posixpath_join_def)
  qed
  have again: "qr_path' = qr_path \<and> dom fs2 = dom fs1
          \<and> (make_image e' user_id = make_image e user_id \<longrightarrow> fs2 = fs1)"
    if "generate_qr_code e' qr_codes_dir user_id fs1 = (fs2, Inr qr_path')"
  proof -
    note s' = generate_qr_code_success [OF that]
    from s(1) s'(1) have eq: "qr_path' = qr_path" by simp
    from s(2) s'(2) eq show ?thesis by auto
  qed
  from p s(2) plain again show ?thesis by blast
qed

theorem generate_qr_code_artifact_path_witness:
  "generate_qr_code env0 (str ''qrcodes'') (str ''alice'') Map.empty
     = ([str ''qrcodes/alice.png'' \<mapsto> str ''alice''], Inr (str ''qrcodes/alice.png''))
   \<and> generate_qr_code env0 (str ''qrcodes'') (str ''alice'')
        [str ''qrcodes/alice.png'' \<mapsto> str ''alice'']
     = ([str ''qrcodes/alice.png'' \<mapsto> str ''alice''], Inr (str ''qrcodes/alice.png''))
   \<and> sep \<notin> set (str ''alice'') \<and> str ''qrcodes'' \<noteq> []
   \<and> \<not> endswith (str ''qrcodes'') (str ''/'')
   \<and> str ''qrcodes/alice.png'' = str ''qrcodes'' @ str ''/'' @ str ''alice'' @ str ''.png''"
proof -
  have h2: "generate_qr_code env0 (str ''qrcodes'') (str ''alice'')
        [str ''qrcodes/alice.png'' \<mapsto> str ''alice'']
     = ([str ''qrcodes/alice.png'' \<mapsto> str ''alice''], Inr (str ''qrcodes/alice.png''))"
    by (simp add: generate_qr_code_def generate_qr_code_try_def env0_def path_eval)
  have h3: "sep \<notin> set (str ''alice'') \<and> str ''qrcodes'' \<noteq> []
      \<and> \<not> endswith (str ''qrcodes'') (str ''/'')"
    by (simp add: endswith_def str_def)
  note t = generate_qr_code_artifact_path [OF gen_alice, where e' = env0
      and ?fs2.0 = "[str ''qrcodes/alice.png'' \<mapsto> str ''alice'']"
      and qr_path' = "str ''qrcodes/alice.png''"]
  from t h3 have c3: "str ''qrcodes/alice.png''
      = str ''qrcodes'' @ str ''/'' @ str ''alice'' @ str ''.png''"
    by blast
  from gen_alice h2 h3 c3 show ?thesis by blast
qed

text \<open>
  The claim as worded gives \<^verbatim>\<open><output_dir>/<user_id>.png\<close> for every valid \<open>user_id\<close>.
  \<^verbatim>\<open>./a\<close> is valid, and its image goes to \<^verbatim>\<open>qrcodes/a.png\<close>, not to \<^verbatim>\<open>qrcodes/./a.png\<close>.
\<close>

theorem artifact_path_normalised:
  "validate_user_id (JStr (str ''./a'')) = Inr True
   \<and> generate_qr_code env0 (str ''qrcodes'') (str ''./a'') Map.empty
        = ([str ''qrcodes/a.png'' \<mapsto> str ''./a''], Inr (str ''qrcodes/a.png''))
   \<and> str ''qrcodes/a.png'' \<noteq> str ''qrcodes'' @ str ''/'' @ str ''./a'' @ str ''.png''"
  by (simp add: validate_user_id_def strip_def isspace_def generate_qr_code_def
      generate_qr_code_try_def env0_def path_eval)

section \<open>Rows are never changed or removed\<close>

text \<open>
  Claim C7.  Every operation of the system (marking, listing, generating a code,
  initialising the store), successful or not, leaves the rows that were in the table
  where they were and as they were: the table afterwards is the table before,
  followed by the rows added.
\<close>

theorem rows_never_change:
  "\<exists>new. table (db (run e qr_codes_dir op w)) = table (db w) @ new"
proof (cases op)
  case (Mark user_id)
  with mark_attendance_table [of e user_id "db w"] show ?thesis
    by (simp add: run_def)
next
  case ListAll
  then show ?thesis by (simp add: run_def get_attendance_records_table)
next
  case (Generate user_id)
  then show ?thesis by (simp add: run_def)
next
  case InitDb
  then show ?thesis by (simp add: run_def init_db_table)
qed

theorem rows_never_change_witness:
  "\<exists>new. table (db (run env0 (str ''qrcodes'') (Mark (str ''alice'')) world0))
           = table (db world0) @ new"
  by (rule rows_never_change)

section \<open>Connections\<close>




section \<open>Request handlers: the empty object\<close>

text \<open>
  Claim C9.  For both POST endpoints, a body that parses to the empty object \<^verbatim>\<open>{}\<close> is
  answered with status 400 and the body \<^verbatim>\<open>{"error": "No data provided"}\<close>; the stored
  state is returned as it was, so neither the validation of \<^verbatim>\<open>user_id\<close> nor a service
  ran.
\<close>

theorem empty_object_rejected:
  "generate_qr e qr_codes_dir (Returns (JObj [])) w =
     (w, \<lparr>status = 400, body = JObj [(str ''error'', JStr (str ''No data provided''))]\<rparr>)
   \<and> mark_attendance e (Returns (JObj [])) w =
     (w, \<lparr>status = 400, body = JObj [(str ''error'', JStr (str ''No data provided''))]\<rparr>)"
  by (simp add: generate_qr_def generate_qr_try_def mark_attendance_def
      mark_attendance_handler_try_def error_body_def)

theorem empty_object_rejected_witness:
  "generate_qr env0 (str ''qrcodes'') (Returns (JObj [])) world0 =
     (world0, \<lparr>status = 400, body = JObj [(str ''error'', JStr (str ''No data provided''))]\<rparr>)
   \<and> mark_attendance env0 (Returns (JObj [])) world0 =
     (world0, \<lparr>status = 400, body = JObj [(str ''error'', JStr (str ''No data provided''))]\<rparr>)"
  using empty_object_rejected [of env0 "str ''qrcodes''" world0] by simp

section \<open>QRCodeService: one failure message\<close>

text \<open>
  Claim C10.  Whatever exception the body of \<^verbatim>\<open>generate_qr_code\<close> raises, its own
  \<open>QRCodeError ''Invalid QR code path''\<close> included, the call raises
  \<open>QRCodeError ''Failed to generate QR code''\<close>; so every failure the caller sees
  carries that one message.
\<close>

theorem generate_qr_code_one_failure_message:
  "(snd (generate_qr_code_try e qr_codes_dir user_id fs) = Inl err \<longrightarrow>
      snd (generate_qr_code e qr_codes_dir user_id fs)
        = Inl (QRCodeError ''Failed to generate QR code''))
   \<and> (snd (generate_qr_code e qr_codes_dir user_id fs) = Inl err' \<longrightarrow>
      err' = QRCodeError ''Failed to generate QR code'')"
proof (cases "generate_qr_code_try e qr_codes_dir user_id fs")
  case (Pair fs' r)
  then show ?thesis
    by (cases r) (simp_all add: generate_qr_code_def)
qed

theorem generate_qr_code_one_failure_message_witness:
  "snd (generate_qr_code_try env0 (str ''qrcodes'') (str ''../evil'') Map.empty)
      = Inl (QRCodeError ''Invalid QR code path'')
   \<and> snd (generate_qr_code env0 (str ''qrcodes'') (str ''../evil'') Map.empty)
      = Inl (QRCodeError ''Failed to generate QR code'')"
proof -
  have h: "snd (generate_qr_code_try env0 (str ''qrcodes'') (str ''../evil'') Map.empty)
      = Inl (QRCodeError ''Invalid QR code path'')"
    by (simp add: generate_qr_code_try_def env0_def safe_join_evil)
  from generate_qr_code_one_failure_message
         [of env0 "str ''qrcodes''" "str ''../evil''" Map.empty
             "QRCodeError ''Invalid QR code path''"
             "QRCodeError ''Failed to generate QR code''"] h
  show ?thesis by simp
qed

end
